theory Spec2Isabelle
  imports Main "HOL-Library.Multiset"
begin

section \<open>TaskMaster: the task store, the date classifier, the sort and the statistics\<close>

text \<open>
  A shallow embedding of \<^verbatim>\<open>src/App.tsx\<close>. The component keeps its state in React hooks;
  the model passes that state explicitly as a record, and every event handler becomes a
  function from the state before the event to the state after it. The clock
  (\<^verbatim>\<open>Date.now()\<close>, \<^verbatim>\<open>new Date()\<close>) and the time zone of the browser are inputs of the
  functions that read them.
\<close>

subsection \<open>Strings: \<^verbatim>\<open>String.prototype.trim\<close> and \<^verbatim>\<open>Number.prototype.toString\<close>\<close>

text \<open>
  A string is a list of code units; a \<^typ>\<open>char\<close> is read as the code unit of the same
  number (0 to 255). Of ECMAScript's white space and line terminators these fall in that
  range: TAB, LF, VT, FF, CR, SPACE and NBSP.
\<close>

definition isWhiteSpace :: "char \<Rightarrow> bool" where
  "isWhiteSpace c \<longleftrightarrow> (of_char c :: nat) \<in> {9, 10, 11, 12, 13, 32, 160}"

definition trim :: "string \<Rightarrow> string" where
  "trim s = rev (dropWhile isWhiteSpace (rev (dropWhile isWhiteSpace s)))"

text \<open>
  \<^verbatim>\<open>Date.now().toString()\<close>: the decimal numeral of an integer, with a minus sign below
  zero. (Numbers print this way up to \<open>10\<^sup>2\<^sup>1\<close>; time values stay below \<open>8.64 * 10\<^sup>1\<^sup>5\<close>.)
\<close>

definition digitChar :: "nat \<Rightarrow> char" where
  "digitChar d = ''0123456789'' ! d"

fun digits :: "nat \<Rightarrow> string" where
  "digits n = (if n < 10 then [digitChar n] else digits (n div 10) @ [digitChar (n mod 10)])"

declare digits.simps [simp del]

definition toString :: "int \<Rightarrow> string" where
  "toString i = (if i < 0 then CHR ''-'' # digits (nat (- i)) else digits (nat i))"

subsection \<open>Dates\<close>

text \<open>
  A \<^verbatim>\<open>Date\<close> object holds a time value: milliseconds since 1970-01-01T00:00:00Z, or
  \<^verbatim>\<open>NaN\<close> for an invalid date. Time values are integers here and \<open>None\<close> is the invalid
  date.
\<close>

type_synonym time = int

definition msPerDay :: int where
  "msPerDay = 86400000"

text \<open>The day arithmetic of ECMAScript (\<^verbatim>\<open>DayFromYear\<close>, \<^verbatim>\<open>InLeapYear\<close>, \<^verbatim>\<open>MakeDay\<close>).\<close>

definition DayFromYear :: "int \<Rightarrow> int" where
  "DayFromYear y =
     365 * (y - 1970) + (y - 1969) div 4 - (y - 1901) div 100 + (y - 1601) div 400"

definition InLeapYear :: "int \<Rightarrow> bool" where
  "InLeapYear y =
     (if y mod 4 \<noteq> 0 then False
      else if y mod 100 \<noteq> 0 then True
      else if y mod 400 \<noteq> 0 then False
      else True)"

definition DaysInMonth :: "int \<Rightarrow> nat \<Rightarrow> int" where
  "DaysInMonth y m =
     (if m = 2 then (if InLeapYear y then 29 else 28)
      else if m \<in> {4, 6, 9, 11} then 30 else 31)"

definition MakeDay :: "int \<Rightarrow> nat \<Rightarrow> int \<Rightarrow> int" where
  "MakeDay y m d = DayFromYear y + (\<Sum>k \<leftarrow> [1..<m]. DaysInMonth y k) + (d - 1)"

definition isDigit :: "char \<Rightarrow> bool" where
  "isDigit c \<longleftrightarrow> 48 \<le> (of_char c :: nat) \<and> (of_char c :: nat) \<le> 57"

definition digitVal :: "char \<Rightarrow> nat" where
  "digitVal c = of_char c - 48"

fun number :: "string \<Rightarrow> nat" where
  "number cs = foldl (\<lambda>n c. 10 * n + digitVal c) 0 cs"

text \<open>
  \<^verbatim>\<open>new Date(s)\<close> for the strings an \<^verbatim>\<open><input type="date">\<close> supplies, the only
  writer of \<^verbatim>\<open>dueDate\<close>: the date-only form \<^verbatim>\<open>YYYY-MM-DD\<close>, which ECMAScript reads as
  midnight UTC of that day. Every other string is the invalid date in this model.
\<close>

definition parseDate :: "string \<Rightarrow> time option" where
  "parseDate s =
     (if length s = 10 \<and> s ! 4 = CHR ''-'' \<and> s ! 7 = CHR ''-''
         \<and> list_all isDigit (take 4 s @ take 2 (drop 5 s) @ drop 8 s)
      then
        (let y = int (number (take 4 s));
             m = number (take 2 (drop 5 s));
             d = int (number (drop 8 s))
         in if 1 \<le> m \<and> m \<le> 12 \<and> 1 \<le> d \<and> d \<le> DaysInMonth y m
            then Some (MakeDay y m d * msPerDay) else None)
      else None)"

text \<open>
  \<^verbatim>\<open>toDateString()\<close> prints the weekday, month, day and year of the date in local time,
  so two of its results are the same string exactly when the two local days are the same.
  The model keeps the number of the local day in place of the printed string (\<open>None\<close> is
  \<^verbatim>\<open>"Invalid Date"\<close>). The local time zone is the function \<open>tza\<close>: the offset in
  milliseconds that local time has from UTC at a given instant.
\<close>

definition localDay :: "(time \<Rightarrow> int) \<Rightarrow> time \<Rightarrow> int" where
  "localDay tza t = (t + tza t) div msPerDay"

definition toDateString :: "(time \<Rightarrow> int) \<Rightarrow> time option \<Rightarrow> int option" where
  "toDateString tza d = map_option (localDay tza) d"

subsection \<open>The data model\<close>

datatype priority = low | medium | high

text \<open>
  The form state of the component (\<^verbatim>\<open>formData\<close>) has the five fields a user edits. A
  \<^verbatim>\<open>Task\<close> has the same five and four more, so it is modelled as the extension of the
  form record; the field \<^verbatim>\<open>id\<close> is \<open>id_task\<close> here, since \<open>id\<close> is the identity function
  of HOL. An empty \<open>dueDate\<close> is the absent due date (the empty string is falsy). The
  timestamps \<open>createdAt\<close> and \<open>completedAt\<close> are ISO strings written by
  \<^verbatim>\<open>toISOString()\<close> and read back by \<^verbatim>\<open>new Date(\<dots>)\<close>; the model keeps the time value
  that the string encodes. A missing or \<^verbatim>\<open>undefined\<close> \<open>completedAt\<close> is \<open>None\<close>.
\<close>

record form_data =
  title :: string
  description :: string
  priority :: priority
  category :: string
  dueDate :: string

record Task = form_data +
  id_task :: string
  completed :: bool
  createdAt :: time
  completedAt :: "time option"

datatype SortType = SortCreated | SortPriority | SortDueDate | SortAlphabetical

text \<open>The part of the component's state that the handlers below read and write.\<close>

record app =
  tasks :: "Task list"
  formData :: form_data
  editingTask :: "Task option"
  showAddForm :: bool

definition emptyForm :: form_data where
  "emptyForm = \<lparr>title = [], description = [], priority = medium,
                 category = ''Personal'', dueDate = []\<rparr>"

definition initialApp :: app where
  "initialApp = \<lparr>tasks = [], formData = emptyForm, editingTask = None, showAddForm = False\<rparr>"

text \<open>
  The error kinds that the specification names. A handler returns \<open>Inr\<close> of the next state
  when it returns normally and \<open>Inl\<close> of an error when it throws.
\<close>

datatype error = ValidationError | NotFoundError

subsection \<open>The handlers\<close>

definition resetForm :: "app \<Rightarrow> app" where
  "resetForm s = s\<lparr>formData := emptyForm\<rparr>"

text \<open>\<^verbatim>\<open>addTask\<close>; \<open>now\<close> is the reading of the clock.\<close>

definition newTask :: "time \<Rightarrow> form_data \<Rightarrow> Task" where
  "newTask now f =
     \<lparr>title = trim (title f), description = trim (description f), priority = priority f,
      category = category f, dueDate = dueDate f,
      id_task = toString now, completed = False, createdAt = now, completedAt = None\<rparr>"

definition addTask :: "time \<Rightarrow> app \<Rightarrow> error + app" where
  "addTask now s =
     (if trim (title (formData s)) = [] then Inr s
      else Inr ((resetForm (s\<lparr>tasks := newTask now (formData s) # tasks s\<rparr>))
                 \<lparr>showAddForm := False\<rparr>))"

definition editTask :: "form_data \<Rightarrow> Task \<Rightarrow> Task" where
  "editTask f task =
     task\<lparr>title := trim (title f), description := trim (description f),
          priority := priority f, category := category f, dueDate := dueDate f\<rparr>"

definition updateTask :: "app \<Rightarrow> error + app" where
  "updateTask s =
     (case editingTask s of
        None \<Rightarrow> Inr s
      | Some e \<Rightarrow>
          if trim (title (formData s)) = [] then Inr s
          else Inr ((resetForm
                 (s\<lparr>tasks := map (\<lambda>task. if id_task task = id_task e
                                            then editTask (formData s) task else task)
                                  (tasks s)\<rparr>))
                 \<lparr>editingTask := None\<rparr>))"

definition toggleTask :: "time \<Rightarrow> string \<Rightarrow> app \<Rightarrow> error + app" where
  "toggleTask now i s =
     Inr (s\<lparr>tasks := map (\<lambda>task. if id_task task = i
                          then task\<lparr>completed := \<not> completed task,
                                    completedAt := (if \<not> completed task then Some now else None)\<rparr>
                          else task)
                        (tasks s)\<rparr>)"

definition deleteTask :: "string \<Rightarrow> app \<Rightarrow> error + app" where
  "deleteTask i s = Inr (s\<lparr>tasks := filter (\<lambda>task. id_task task \<noteq> i) (tasks s)\<rparr>)"

definition startEdit :: "Task \<Rightarrow> app \<Rightarrow> error + app" where
  "startEdit task s =
     Inr (s\<lparr>editingTask := Some task,
            formData := \<lparr>title = title task, description = description task,
                          priority = priority task, category = category task,
                          dueDate = dueDate task\<rparr>,
            showAddForm := True\<rparr>)"

definition cancelForm :: "app \<Rightarrow> error + app" where
  "cancelForm s = Inr ((resetForm s)\<lparr>showAddForm := False, editingTask := None\<rparr>)"

text \<open>
  What a user can do to the store: type into the form (\<^verbatim>\<open>setFormData\<close>), and fire one of
  the handlers. A run applies a list of events in order and stops at the first error.
\<close>

datatype event =
    SetFormData form_data
  | AddTask time
  | StartEdit Task
  | UpdateTask
  | ToggleTask time string
  | DeleteTask string
  | CancelForm

fun step :: "event \<Rightarrow> app \<Rightarrow> error + app" where
  "step (SetFormData f) s = Inr (s\<lparr>formData := f\<rparr>)"
| "step (AddTask now) s = addTask now s"
| "step (StartEdit task) s = startEdit task s"
| "step UpdateTask s = updateTask s"
| "step (ToggleTask now i) s = toggleTask now i s"
| "step (DeleteTask i) s = deleteTask i s"
| "step CancelForm s = cancelForm s"

fun run :: "event list \<Rightarrow> app \<Rightarrow> error + app" where
  "run [] s = Inr s"
| "run (e # es) s = (case step e s of Inl err \<Rightarrow> Inl err | Inr s' \<Rightarrow> run es s')"

text \<open>The clock readings of the \<^verbatim>\<open>addTask\<close> events of a run, in order.\<close>

fun addTimes :: "event list \<Rightarrow> time list" where
  "addTimes [] = []"
| "addTimes (AddTask now # es) = now # addTimes es"
| "addTimes (e # es) = addTimes es"

subsection \<open>The date classifier and the statistics\<close>

text \<open>
  \<^verbatim>\<open>isOverdue\<close>. The clock is read once for the comparison and once for the day; both
  readings are \<open>now\<close>. A comparison with the invalid date is false.
\<close>

definition dateBefore :: "time option \<Rightarrow> time \<Rightarrow> bool" where
  "dateBefore d now = (case d of None \<Rightarrow> False | Some t \<Rightarrow> t < now)"

definition isOverdue :: "(time \<Rightarrow> int) \<Rightarrow> time \<Rightarrow> string \<Rightarrow> bool" where
  "isOverdue tza now due =
     (if due = [] then False
      else dateBefore (parseDate due) now
           \<and> toDateString tza (parseDate due) \<noteq> toDateString tza (Some now))"

text \<open>The class of a task in the list: \<^verbatim>\<open>isOverdue(task.dueDate) && !task.completed\<close>.\<close>

definition taskOverdue :: "(time \<Rightarrow> int) \<Rightarrow> time \<Rightarrow> Task \<Rightarrow> bool" where
  "taskOverdue tza now t \<longleftrightarrow> isOverdue tza now (dueDate t) \<and> \<not> completed t"

record stats =
  total :: nat
  completed_stat :: nat
  active :: nat
  overdue :: nat

definition statsOf :: "time \<Rightarrow> Task list \<Rightarrow> stats" where
  "statsOf now ts =
     \<lparr>total = length ts,
      completed_stat = length (filter completed ts),
      active = length (filter (\<lambda>t. \<not> completed t) ts),
      overdue = length (filter (\<lambda>t. \<not> completed t \<and> dueDate t \<noteq> []
                                       \<and> dateBefore (parseDate (dueDate t)) now) ts)\<rparr>"

subsection \<open>The sort\<close>

text \<open>
  \<^verbatim>\<open>filteredTasks\<close> filters the collection and then sorts what is left; the sort is
  modelled on its own, for any list of tasks. The result of its comparator is a number; \<open>None\<close> is \<^verbatim>\<open>NaN\<close>, which
  the difference of two time values is when one of the dates is invalid.
  \<^verbatim>\<open>localeCompare\<close> depends on the locale of the browser and is a parameter.
\<close>

definition priorityOrder :: "priority \<Rightarrow> int" where
  "priorityOrder p = (case p of high \<Rightarrow> 3 | medium \<Rightarrow> 2 | low \<Rightarrow> 1)"

definition timeDiff :: "time option \<Rightarrow> time option \<Rightarrow> int option" where
  "timeDiff a b = (case (a, b) of (Some x, Some y) \<Rightarrow> Some (x - y) | _ \<Rightarrow> None)"

definition compareTasks ::
  "(string \<Rightarrow> string \<Rightarrow> int) \<Rightarrow> SortType \<Rightarrow> Task \<Rightarrow> Task \<Rightarrow> int option" where
  "compareTasks localeCompare sortBy a b =
     (case sortBy of
        SortPriority \<Rightarrow> Some (priorityOrder (priority b) - priorityOrder (priority a))
      | SortDueDate \<Rightarrow>
          if dueDate a = [] \<and> dueDate b = [] then Some 0
          else if dueDate a = [] then Some 1
          else if dueDate b = [] then Some (- 1)
          else timeDiff (parseDate (dueDate a)) (parseDate (dueDate b))
      | SortAlphabetical \<Rightarrow> Some (localeCompare (title a) (title b))
      | SortCreated \<Rightarrow> Some (createdAt b - createdAt a))"

text \<open>
  \<^verbatim>\<open>Array.prototype.sort\<close> with a comparator: the sort is stable, an element \<open>a\<close> stays
  before \<open>b\<close> unless the comparator is positive on \<open>(a, b)\<close>, and \<^verbatim>\<open>NaN\<close> counts as
  zero. For a comparator that is a total preorder every stable sort returns the same
  list; the model computes it by insertion from the right.
\<close>

definition notAfter :: "('a \<Rightarrow> 'a \<Rightarrow> int option) \<Rightarrow> 'a \<Rightarrow> 'a \<Rightarrow> bool" where
  "notAfter cmp a b = (case cmp a b of None \<Rightarrow> True | Some v \<Rightarrow> v \<le> 0)"

fun insertBy :: "('a \<Rightarrow> 'a \<Rightarrow> int option) \<Rightarrow> 'a \<Rightarrow> 'a list \<Rightarrow> 'a list" where
  "insertBy cmp a [] = [a]"
| "insertBy cmp a (b # bs) =
     (if notAfter cmp a b then a # b # bs else b # insertBy cmp a bs)"

fun sortWith :: "('a \<Rightarrow> 'a \<Rightarrow> int option) \<Rightarrow> 'a list \<Rightarrow> 'a list" where
  "sortWith cmp [] = []"
| "sortWith cmp (a # as) = insertBy cmp a (sortWith cmp as)"

definition sortTasks ::
  "(string \<Rightarrow> string \<Rightarrow> int) \<Rightarrow> SortType \<Rightarrow> Task list \<Rightarrow> Task list" where
  "sortTasks localeCompare sortBy ts = sortWith (compareTasks localeCompare sortBy) ts"

section \<open>Properties\<close>

subsection \<open>The decimal numeral of a number determines the number\<close>

lemma digitChar_inj: "a < 10 \<Longrightarrow> b < 10 \<Longrightarrow> digitChar a = digitChar b \<Longrightarrow> a = b"
proof -
  assume a: "a < 10" and b: "b < 10" and e: "digitChar a = digitChar b"
  have d: "distinct ''0123456789''" by simp
  from a b e show ?thesis
    unfolding digitChar_def using nth_eq_iff_index_eq [OF d, of a b] by simp
qed

lemma digitChar_not_minus: "a < 10 \<Longrightarrow> digitChar a \<noteq> CHR ''-''"
proof -
  assume "a < 10"
  then have "digitChar a \<in> set ''0123456789''"
    unfolding digitChar_def by (intro nth_mem) simp
  then show ?thesis by auto
qed

lemma digits_nonempty: "digits n \<noteq> []"
  by (subst digits.simps) simp

lemma last_digits: "last (digits n) = digitChar (n mod 10)"
  by (subst digits.simps) simp

lemma butlast_digits: "butlast (digits n) = (if n < 10 then [] else digits (n div 10))"
  by (subst digits.simps) simp

lemma hd_digits_not_minus: "hd (digits n) \<noteq> CHR ''-''"
proof (induction n rule: digits.induct)
  case (1 n)
  show ?case
  proof (cases "n < 10")
    case True
    then show ?thesis by (subst digits.simps) (simp add: digitChar_not_minus)
  next
    case False
    with 1 show ?thesis by (subst digits.simps) (simp add: digits_nonempty)
  qed
qed

lemma digits_inj: "digits n = digits m \<Longrightarrow> n = m"
proof (induction n arbitrary: m rule: digits.induct)
  case (1 n)
  from 1(2) have l: "digitChar (n mod 10) = digitChar (m mod 10)"
    using last_digits [of n] last_digits [of m] by simp
  then have lm: "n mod 10 = m mod 10"
    by (intro digitChar_inj) simp_all
  from 1(2) have b: "butlast (digits n) = butlast (digits m)" by simp
  show ?case
  proof (cases "n < 10")
    case True
    with b have "m < 10"
      using digits_nonempty [of "m div 10"] by (auto simp: butlast_digits split: if_splits)
    with True lm show ?thesis by simp
  next
    case False
    with b have m: "\<not> m < 10"
      using digits_nonempty [of "n div 10"] by (auto simp: butlast_digits split: if_splits)
    with False b have "digits (n div 10) = digits (m div 10)"
      by (simp add: butlast_digits)
    with 1(1) False have "n div 10 = m div 10" by blast
    with lm show ?thesis
      by (metis div_mult_mod_eq)
  qed
qed

lemma minus_digits_neq: "CHR ''-'' # digits a \<noteq> digits b"
  using hd_digits_not_minus [of b] by (metis list.sel(1))

lemma toString_inj: "toString i = toString j \<Longrightarrow> i = j"
proof -
  assume e: "toString i = toString j"
  show ?thesis
  proof (cases "i < 0")
    case True
    with e have j: "j < 0"
      using minus_digits_neq by (auto simp: toString_def split: if_splits)
    with True e have "nat (- i) = nat (- j)" by (auto simp: toString_def dest: digits_inj)
    with True j show ?thesis by simp
  next
    case False
    with e have j: "\<not> j < 0"
      using minus_digits_neq [of "nat (- j)" "nat i"] by (auto simp: toString_def split: if_splits)
    with False e have "nat i = nat j" by (auto simp: toString_def dest: digits_inj)
    with False j show ?thesis by simp
  qed
qed

subsection \<open>What \<open>trim\<close> removes\<close>

lemma rev_drop_take: "rev (dropWhile P r) @ rev (takeWhile P r) = rev r"
  by (metis rev_append takeWhile_dropWhile_id)

lemma trim_split:
  "dropWhile isWhiteSpace s =
     trim s @ rev (takeWhile isWhiteSpace (rev (dropWhile isWhiteSpace s)))"
  unfolding trim_def by (simp only: rev_drop_take rev_rev_ident)

lemma dropWhile_all_iff: "(\<forall>x \<in> set (dropWhile P xs). P x) \<longleftrightarrow> (\<forall>x \<in> set xs. P x)"
proof
  assume a: "\<forall>x \<in> set (dropWhile P xs). P x"
  have "dropWhile P xs = []"
  proof (rule ccontr)
    assume "dropWhile P xs \<noteq> []"
    then have "\<not> P (hd (dropWhile P xs))" "hd (dropWhile P xs) \<in> set (dropWhile P xs)"
      by (simp_all add: hd_dropWhile)
    with a show False by blast
  qed
  then show "\<forall>x \<in> set xs. P x" by (simp add: dropWhile_eq_Nil_conv)
next
  assume "\<forall>x \<in> set xs. P x"
  then show "\<forall>x \<in> set (dropWhile P xs). P x" by (meson set_dropWhileD)
qed

lemma trim_empty_iff: "trim s = [] \<longleftrightarrow> (\<forall>c \<in> set s. isWhiteSpace c)"
  by (simp add: trim_def dropWhile_eq_Nil_conv dropWhile_all_iff)

lemma trim_decomp:
  "\<exists>p q. s = p @ trim s @ q \<and> list_all isWhiteSpace p \<and> list_all isWhiteSpace q"
proof -
  let ?u = "dropWhile isWhiteSpace s"
  let ?q = "rev (takeWhile isWhiteSpace (rev ?u))"
  have "takeWhile isWhiteSpace s @ ?u = s" by (rule takeWhile_dropWhile_id)
  then have "takeWhile isWhiteSpace s @ (trim s @ ?q) = s"
    by (subst (asm) trim_split)
  then have "s = takeWhile isWhiteSpace s @ trim s @ ?q" by (rule sym)
  moreover have "list_all isWhiteSpace (takeWhile isWhiteSpace s)"
    by (simp add: list_all_iff) (meson set_takeWhileD)
  moreover have "list_all isWhiteSpace ?q"
    by (simp add: list_all_iff) (meson set_takeWhileD)
  ultimately show ?thesis by blast
qed

lemma trim_ends:
  "trim s \<noteq> [] \<Longrightarrow> \<not> isWhiteSpace (hd (trim s)) \<and> \<not> isWhiteSpace (last (trim s))"
proof -
  assume ne: "trim s \<noteq> []"
  let ?u = "dropWhile isWhiteSpace s"
  let ?v = "dropWhile isWhiteSpace (rev ?u)"
  from ne have v: "?v \<noteq> []" by (simp add: trim_def)
  then have "\<not> isWhiteSpace (hd ?v)" by (rule hd_dropWhile)
  with v have l: "\<not> isWhiteSpace (last (trim s))" by (simp add: trim_def last_rev)
  have "?v = []" if "?u = []" unfolding that by simp
  with v have u: "?u \<noteq> []" by blast
  then have hu: "\<not> isWhiteSpace (hd ?u)" by (rule hd_dropWhile)
  from ne have "hd ?u = hd (trim s)"
    using trim_split [of s] by (metis hd_append2)
  with hu l show ?thesis by simp
qed

subsection \<open>The handlers never throw\<close>

lemma step_returns: "\<exists>s'. step e s = Inr s'"
  by (cases e)
    (simp_all add: addTask_def updateTask_def toggleTask_def deleteTask_def startEdit_def
      cancelForm_def split: option.split)

lemma run_returns: "\<exists>s'. run es s = Inr s'"
proof (induction es arbitrary: s)
  case Nil
  show ?case by simp
next
  case (Cons e es)
  obtain s1 where "step e s = Inr s1" using step_returns by blast
  with Cons.IH [of s1] show ?case by simp
qed

lemma tasks_resetForm [simp]: "tasks (resetForm s) = tasks s"
  by (simp add: resetForm_def)

lemma addTask_tasks:
  "addTask now s = Inr s' \<Longrightarrow>
   tasks s' = (if trim (title (formData s)) = [] then tasks s
               else newTask now (formData s) # tasks s)"
  by (auto simp: addTask_def split: if_splits)

lemma updateTask_tasks:
  "updateTask s = Inr s' \<Longrightarrow>
   tasks s' =
     (case editingTask s of
        None \<Rightarrow> tasks s
      | Some e \<Rightarrow>
          if trim (title (formData s)) = [] then tasks s
          else map (\<lambda>task. if id_task task = id_task e
                            then editTask (formData s) task else task) (tasks s))"
  by (auto simp: updateTask_def split: option.splits if_splits)

lemma toggleTask_tasks:
  "toggleTask now i s = Inr s' \<Longrightarrow>
   tasks s' = map (\<lambda>task. if id_task task = i
                  then task\<lparr>completed := \<not> completed task,
                            completedAt := (if \<not> completed task then Some now else None)\<rparr>
                  else task) (tasks s)"
  by (auto simp: toggleTask_def)

lemma deleteTask_tasks:
  "deleteTask i s = Inr s' \<Longrightarrow> tasks s' = filter (\<lambda>task. id_task task \<noteq> i) (tasks s)"
  by (auto simp: deleteTask_def)

lemma id_editTask [simp]: "id_task (editTask f t) = id_task t"
  by (simp add: editTask_def)

lemma ids_map_edit:
  "map id_task (map (\<lambda>task. if P task then editTask f task else task) ts) = map id_task ts"
  by (induction ts) simp_all

lemma ids_map_toggle:
  "map id_task (map (\<lambda>task. if P task
       then task\<lparr>completed := c task, completedAt := d task\<rparr> else task) ts) = map id_task ts"
  by (induction ts) simp_all

text \<open>The identifiers in the store after one event.\<close>

lemma step_ids:
  assumes "step e s = Inr s'"
  shows "map id_task (tasks s') =
     (case e of
        AddTask now \<Rightarrow> (if trim (title (formData s)) = [] then map id_task (tasks s)
                        else toString now # map id_task (tasks s))
      | DeleteTask i \<Rightarrow> filter (\<lambda>j. j \<noteq> i) (map id_task (tasks s))
      | _ \<Rightarrow> map id_task (tasks s))"
proof (cases e)
  case (SetFormData f)
  with assms show ?thesis by auto
next
  case (AddTask now)
  with assms have "addTask now s = Inr s'" by simp
  from addTask_tasks [OF this] AddTask show ?thesis by (simp add: newTask_def)
next
  case (StartEdit t)
  with assms show ?thesis by (auto simp: startEdit_def)
next
  case UpdateTask
  with assms have "updateTask s = Inr s'" by simp
  from updateTask_tasks [OF this] have "map id_task (tasks s') = map id_task (tasks s)"
    by (simp add: ids_map_edit split: option.splits)
  with UpdateTask show ?thesis by simp
next
  case (ToggleTask now i)
  with assms have "toggleTask now i s = Inr s'" by simp
  from toggleTask_tasks [OF this] have "map id_task (tasks s') = map id_task (tasks s)"
    by (simp only: ids_map_toggle)
  with ToggleTask show ?thesis by simp
next
  case (DeleteTask i)
  with assms have "deleteTask i s = Inr s'" by simp
  from deleteTask_tasks [OF this] DeleteTask show ?thesis
    by (simp add: filter_map comp_def)
next
  case CancelForm
  with assms show ?thesis by (auto simp: cancelForm_def)
qed

lemma run_ids_distinct:
  assumes "run es s = Inr s'"
    and "distinct (map id_task (tasks s))"
    and "distinct (addTimes es)"
    and "set (map id_task (tasks s)) \<inter> toString ` set (addTimes es) = {}"
  shows "distinct (map id_task (tasks s'))"
  using assms
proof (induction es arbitrary: s)
  case Nil
  then show ?case by simp
next
  case (Cons e es)
  obtain s1 where s1: "step e s = Inr s1" using step_returns by blast
  with Cons.prems(1) have r: "run es s1 = Inr s'" by simp
  note ids = step_ids [OF s1]
  have sub: "set (addTimes es) \<subseteq> set (addTimes (e # es))" by (cases e) auto
  have d: "distinct (addTimes es)" using Cons.prems(3) by (cases e) auto
  have "distinct (map id_task (tasks s1)) \<and>
        set (map id_task (tasks s1)) \<inter> toString ` set (addTimes es) = {}"
  proof (cases e)
    case (AddTask now)
    have fresh: "toString now \<notin> set (map id_task (tasks s))"
      using Cons.prems(4) AddTask by auto
    have "toString now \<notin> toString ` set (addTimes es)"
      using Cons.prems(3) AddTask by (auto dest: toString_inj)
    with fresh ids AddTask Cons.prems(2,4) show ?thesis
      by (auto split: if_splits)
  next
    case (DeleteTask i)
    with ids Cons.prems(2,4) sub show ?thesis by auto
  qed (use ids Cons.prems(2,4) sub in auto)
  with Cons.IH [OF r] d show ?case by blast
qed

subsection \<open>The completion stamp\<close>

lemma step_stamp:
  assumes "step e s = Inr s'"
    and "\<forall>t \<in> set (tasks s). (completedAt t \<noteq> None) = completed t"
  shows "\<forall>t \<in> set (tasks s'). (completedAt t \<noteq> None) = completed t"
proof (cases e)
  case (SetFormData f)
  with assms show ?thesis by auto
next
  case (AddTask now)
  with assms(1) have "addTask now s = Inr s'" by simp
  from addTask_tasks [OF this] assms(2) show ?thesis
    by (auto simp: newTask_def split: if_splits)
next
  case (StartEdit t)
  with assms show ?thesis by (auto simp: startEdit_def)
next
  case UpdateTask
  with assms(1) have "updateTask s = Inr s'" by simp
  from updateTask_tasks [OF this] assms(2) show ?thesis
    by (auto simp: editTask_def split: option.splits if_splits)
next
  case (ToggleTask now i)
  with assms(1) have "toggleTask now i s = Inr s'" by simp
  from toggleTask_tasks [OF this] assms(2) show ?thesis
    by (auto split: if_splits)
next
  case (DeleteTask i)
  with assms(1) have "deleteTask i s = Inr s'" by simp
  from deleteTask_tasks [OF this] assms(2) show ?thesis by auto
next
  case CancelForm
  with assms show ?thesis by (auto simp: cancelForm_def)
qed

lemma run_stamp:
  assumes "run es s = Inr s'"
    and "\<forall>t \<in> set (tasks s). (completedAt t \<noteq> None) = completed t"
  shows "\<forall>t \<in> set (tasks s'). (completedAt t \<noteq> None) = completed t"
  using assms
proof (induction es arbitrary: s)
  case Nil
  then show ?case by simp
next
  case (Cons e es)
  obtain s1 where s1: "step e s = Inr s1" using step_returns by blast
  with Cons.prems(1) have "run es s1 = Inr s'" by simp
  from Cons.IH [OF this step_stamp [OF s1 Cons.prems(2)]] show ?case .
qed

text \<open>
  C4. After any sequence of events from the empty store, \<open>completedAt\<close> is present on a
  task exactly when \<open>completed\<close> is true. A created task is not completed and has no
  \<open>completedAt\<close>; toggling a task that is not completed stamps it with the clock, and
  toggling a completed task removes the stamp.
\<close>

theorem completedAt_iff_completed:
  "(\<exists>s. run es initialApp = Inr s
        \<and> (\<forall>t \<in> set (tasks s). (completedAt t \<noteq> None) = completed t))
   \<and> \<not> completed (newTask now f) \<and> completedAt (newTask now f) = None
   \<and> (\<forall>s'. toggleTask now i s0 = Inr s' \<longrightarrow>
        length (tasks s') = length (tasks s0)
        \<and> (\<forall>k < length (tasks s0). id_task (tasks s0 ! k) = i \<longrightarrow>
              completed (tasks s' ! k) = (\<not> completed (tasks s0 ! k))
              \<and> completedAt (tasks s' ! k)
                  = (if completed (tasks s0 ! k) then None else Some now)))"
proof -
  obtain s where s: "run es initialApp = Inr s" using run_returns by blast
  have "\<forall>t \<in> set (tasks initialApp). (completedAt t \<noteq> None) = completed t"
    by (simp add: initialApp_def)
  from run_stamp [OF s this] s
  have 1: "\<exists>s. run es initialApp = Inr s
        \<and> (\<forall>t \<in> set (tasks s). (completedAt t \<noteq> None) = completed t)"
    by blast
  have 2: "\<not> completed (newTask now f) \<and> completedAt (newTask now f) = None"
    by (simp add: newTask_def)
  have 3: "length (tasks s') = length (tasks s0)
        \<and> (\<forall>k < length (tasks s0). id_task (tasks s0 ! k) = i \<longrightarrow>
              completed (tasks s' ! k) = (\<not> completed (tasks s0 ! k))
              \<and> completedAt (tasks s' ! k)
                  = (if completed (tasks s0 ! k) then None else Some now))"
    if "toggleTask now i s0 = Inr s'" for s'
    using toggleTask_tasks [OF that] by simp
  from 1 2 3 show ?thesis by blast
qed

theorem completedAt_iff_completed_witness:
  "run [SetFormData (emptyForm\<lparr>title := ''Buy milk''\<rparr>), AddTask 1000,
        SetFormData (emptyForm\<lparr>title := ''Write report''\<rparr>), AddTask 2000,
        ToggleTask 3000 ''1000'', ToggleTask 4000 ''2000'', ToggleTask 5000 ''2000'']
       initialApp
   = Inr \<lparr>tasks =
            [\<lparr>title = ''Write report'', description = [], priority = medium,
              category = ''Personal'', dueDate = [], id_task = ''2000'', completed = False,
              createdAt = 2000, completedAt = None\<rparr>,
             \<lparr>title = ''Buy milk'', description = [], priority = medium,
              category = ''Personal'', dueDate = [], id_task = ''1000'', completed = True,
              createdAt = 1000, completedAt = Some 3000\<rparr>],
          formData = emptyForm, editingTask = None, showAddForm = False\<rparr>
   \<and> (\<exists>s. run [SetFormData (emptyForm\<lparr>title := ''Buy milk''\<rparr>), AddTask 1000,
        SetFormData (emptyForm\<lparr>title := ''Write report''\<rparr>), AddTask 2000,
        ToggleTask 3000 ''1000'', ToggleTask 4000 ''2000'', ToggleTask 5000 ''2000'']
       initialApp = Inr s
        \<and> (\<forall>t \<in> set (tasks s). (completedAt t \<noteq> None) = completed t))
   \<and> toggleTask 3000 ''1000''
         (initialApp\<lparr>tasks := [newTask 1000 (emptyForm\<lparr>title := ''Buy milk''\<rparr>)]\<rparr>)
       = Inr (initialApp\<lparr>tasks := [(newTask 1000 (emptyForm\<lparr>title := ''Buy milk''\<rparr>))
                                       \<lparr>completed := True, completedAt := Some 3000\<rparr>]\<rparr>)"
  using completedAt_iff_completed [of
      "[SetFormData (emptyForm\<lparr>title := ''Buy milk''\<rparr>), AddTask 1000,
        SetFormData (emptyForm\<lparr>title := ''Write report''\<rparr>), AddTask 2000,
        ToggleTask 3000 ''1000'', ToggleTask 4000 ''2000'', ToggleTask 5000 ''2000'']"
      3000 "emptyForm\<lparr>title := ''Buy milk''\<rparr>" "''1000''"
      "initialApp\<lparr>tasks := [newTask 1000 (emptyForm\<lparr>title := ''Buy milk''\<rparr>)]\<rparr>"]
  by (simp add: addTask_def toggleTask_def initialApp_def emptyForm_def resetForm_def
      newTask_def trim_def isWhiteSpace_def toString_def digits.simps digitChar_def)

subsection \<open>Identifiers\<close>

text \<open>
  C3, as stated, fails: two tasks created at the same reading of the clock get the same
  identifier, and both stay in the store.
\<close>

theorem same_instant_ids_counterexample:
  "run [SetFormData (emptyForm\<lparr>title := ''Buy milk''\<rparr>), AddTask 1717977600000,
        SetFormData (emptyForm\<lparr>title := ''Write report''\<rparr>), AddTask 1717977600000]
       initialApp
   = Inr \<lparr>tasks =
            [\<lparr>title = ''Write report'', description = [], priority = medium,
              category = ''Personal'', dueDate = [], id_task = ''1717977600000'',
              completed = False, createdAt = 1717977600000, completedAt = None\<rparr>,
             \<lparr>title = ''Buy milk'', description = [], priority = medium,
              category = ''Personal'', dueDate = [], id_task = ''1717977600000'',
              completed = False, createdAt = 1717977600000, completedAt = None\<rparr>],
          formData = emptyForm, editingTask = None, showAddForm = False\<rparr>
   \<and> \<not> distinct (map id_task (tasks (projr
        (run [SetFormData (emptyForm\<lparr>title := ''Buy milk''\<rparr>), AddTask 1717977600000,
              SetFormData (emptyForm\<lparr>title := ''Write report''\<rparr>), AddTask 1717977600000]
           initialApp))))"
  by (simp add: addTask_def initialApp_def emptyForm_def resetForm_def
      newTask_def trim_def isWhiteSpace_def toString_def digits.simps digitChar_def)

text \<open>
  C3, amended. Two tasks created at different readings of the clock get different
  identifiers, and after any sequence of events from the empty store in which no two
  \<^verbatim>\<open>addTask\<close> events read the same clock value, the identifiers in the store are
  pairwise distinct.
\<close>

theorem distinct_instants_distinct_ids:
  assumes "distinct (addTimes es)"
  shows "(\<exists>s. run es initialApp = Inr s \<and> distinct (map id_task (tasks s)))
     \<and> (\<forall>a b f g. a \<noteq> b \<longrightarrow> id_task (newTask a f) \<noteq> id_task (newTask b g))"
proof -
  obtain s where s: "run es initialApp = Inr s" using run_returns by blast
  have "distinct (map id_task (tasks s))"
    by (rule run_ids_distinct [OF s _ assms]) (simp_all add: initialApp_def)
  moreover have "id_task (newTask a f) \<noteq> id_task (newTask b g)" if "a \<noteq> b" for a b f g
    using that toString_inj [of a b] by (auto simp: newTask_def)
  ultimately show ?thesis using s by blast
qed

theorem distinct_instants_distinct_ids_witness:
  "distinct (addTimes [SetFormData (emptyForm\<lparr>title := ''Buy milk''\<rparr>), AddTask 1717977600000,
        SetFormData (emptyForm\<lparr>title := ''Write report''\<rparr>), AddTask 1717977600001])
   \<and> (\<exists>s. run [SetFormData (emptyForm\<lparr>title := ''Buy milk''\<rparr>), AddTask 1717977600000,
        SetFormData (emptyForm\<lparr>title := ''Write report''\<rparr>), AddTask 1717977600001]
        initialApp = Inr s \<and> distinct (map id_task (tasks s)))
   \<and> map id_task (tasks (projr (run [SetFormData (emptyForm\<lparr>title := ''Buy milk''\<rparr>), AddTask 1717977600000,
        SetFormData (emptyForm\<lparr>title := ''Write report''\<rparr>), AddTask 1717977600001]
        initialApp))) = [''1717977600001'', ''1717977600000'']"
proof -
  have d: "distinct (addTimes [SetFormData (emptyForm\<lparr>title := ''Buy milk''\<rparr>), AddTask 1717977600000,
        SetFormData (emptyForm\<lparr>title := ''Write report''\<rparr>), AddTask 1717977600001])"
    by simp
  have "map id_task (tasks (projr (run [SetFormData (emptyForm\<lparr>title := ''Buy milk''\<rparr>), AddTask 1717977600000,
        SetFormData (emptyForm\<lparr>title := ''Write report''\<rparr>), AddTask 1717977600001]
        initialApp))) = [''1717977600001'', ''1717977600000'']"
    by (simp add: addTask_def initialApp_def emptyForm_def resetForm_def
      newTask_def trim_def isWhiteSpace_def toString_def digits.simps digitChar_def)
  with d distinct_instants_distinct_ids [OF d] show ?thesis by blast
qed

subsection \<open>A blank title\<close>

text \<open>
  C5, as stated, fails: with a blank title \<^verbatim>\<open>addTask\<close> and \<^verbatim>\<open>updateTask\<close> return
  normally; no error is raised.
\<close>

theorem blank_title_counterexample:
  "addTask 1717977600000 (initialApp\<lparr>formData := emptyForm\<lparr>title := ''   ''\<rparr>\<rparr>)
     \<noteq> Inl ValidationError
   \<and> updateTask (initialApp\<lparr>formData := emptyForm\<lparr>title := ''   ''\<rparr>,
                              editingTask := Some (newTask 5 (emptyForm\<lparr>title := ''Buy milk''\<rparr>)),
                              tasks := [newTask 5 (emptyForm\<lparr>title := ''Buy milk''\<rparr>)]\<rparr>)
     \<noteq> Inl ValidationError"
  by (simp add: addTask_def updateTask_def)

text \<open>
  C5, amended. When the title of the form is empty or consists of white space only,
  \<^verbatim>\<open>addTask\<close> and \<^verbatim>\<open>updateTask\<close> return without raising an error and without any
  effect: the state after the call, and with it the task collection, is the state before.
\<close>

theorem blank_title_no_effect:
  assumes "\<forall>c \<in> set (title (formData s)). isWhiteSpace c"
  shows "addTask now s = Inr s \<and> updateTask s = Inr s"
  using assms trim_empty_iff [of "title (formData s)"]
  by (simp add: addTask_def updateTask_def split: option.split)

theorem blank_title_no_effect_witness:
  "list_all isWhiteSpace (title (formData
        (initialApp\<lparr>formData := emptyForm\<lparr>title := ''   ''\<rparr>,
                     editingTask := Some (newTask 5 (emptyForm\<lparr>title := ''Buy milk''\<rparr>)),
                     tasks := [newTask 5 (emptyForm\<lparr>title := ''Buy milk''\<rparr>)]\<rparr>)))
   \<and> updateTask (initialApp\<lparr>formData := emptyForm\<lparr>title := ''   ''\<rparr>,
                     editingTask := Some (newTask 5 (emptyForm\<lparr>title := ''Buy milk''\<rparr>)),
                     tasks := [newTask 5 (emptyForm\<lparr>title := ''Buy milk''\<rparr>)]\<rparr>)
     = Inr (initialApp\<lparr>formData := emptyForm\<lparr>title := ''   ''\<rparr>,
                     editingTask := Some (newTask 5 (emptyForm\<lparr>title := ''Buy milk''\<rparr>)),
                     tasks := [newTask 5 (emptyForm\<lparr>title := ''Buy milk''\<rparr>)]\<rparr>)
   \<and> addTask 7 (initialApp\<lparr>formData := emptyForm\<lparr>title := ''   ''\<rparr>,
                     editingTask := Some (newTask 5 (emptyForm\<lparr>title := ''Buy milk''\<rparr>)),
                     tasks := [newTask 5 (emptyForm\<lparr>title := ''Buy milk''\<rparr>)]\<rparr>)
     = Inr (initialApp\<lparr>formData := emptyForm\<lparr>title := ''   ''\<rparr>,
                     editingTask := Some (newTask 5 (emptyForm\<lparr>title := ''Buy milk''\<rparr>)),
                     tasks := [newTask 5 (emptyForm\<lparr>title := ''Buy milk''\<rparr>)]\<rparr>)"
proof -
  have h: "\<forall>c \<in> set (title (formData
        (initialApp\<lparr>formData := emptyForm\<lparr>title := ''   ''\<rparr>,
                     editingTask := Some (newTask 5 (emptyForm\<lparr>title := ''Buy milk''\<rparr>)),
                     tasks := [newTask 5 (emptyForm\<lparr>title := ''Buy milk''\<rparr>)]\<rparr>))).
      isWhiteSpace c"
    by (simp add: isWhiteSpace_def)
  from h blank_title_no_effect [OF h, of 7] show ?thesis
    by (simp add: list_all_iff)
qed

subsection \<open>An identifier that is not in the store\<close>

text \<open>
  C6, as stated, fails: toggling or updating with an identifier that no task has returns
  normally; no error is raised.
\<close>

theorem absent_id_counterexample:
  "toggleTask 9 ''6'' (initialApp\<lparr>tasks := [newTask 5 (emptyForm\<lparr>title := ''Buy milk''\<rparr>)]\<rparr>)
     \<noteq> Inl NotFoundError
   \<and> updateTask (initialApp\<lparr>formData := emptyForm\<lparr>title := ''Buy bread''\<rparr>,
                  editingTask := Some (newTask 6 (emptyForm\<lparr>title := ''Buy eggs''\<rparr>)),
                  tasks := [newTask 5 (emptyForm\<lparr>title := ''Buy milk''\<rparr>)]\<rparr>)
     \<noteq> Inl NotFoundError"
  by (simp add: toggleTask_def updateTask_def)

text \<open>
  C6, amended. When no task in the store has the identifier, \<^verbatim>\<open>toggleTask\<close> with that
  identifier returns without raising an error and leaves the whole state, and with it
  the task collection, as it was, whatever the form is doing; and \<^verbatim>\<open>updateTask\<close>, while
  the task being edited has that identifier, returns without raising an error and
  leaves the task collection as it was.
\<close>

theorem absent_id_no_effect:
  assumes "i \<notin> id_task ` set (tasks s)"
  shows "toggleTask now i s = Inr s
       \<and> (\<forall>e. editingTask s = Some e \<and> id_task e = i \<longrightarrow>
            (\<exists>s'. updateTask s = Inr s' \<and> tasks s' = tasks s))"
proof -
  have t: "map (\<lambda>task. if id_task task = i then g task else task) (tasks s) = tasks s" for g
    using assms by (intro map_idI) auto
  have "toggleTask now i s = Inr s"
    by (simp add: toggleTask_def t)
  moreover have "\<exists>s'. updateTask s = Inr s' \<and> tasks s' = tasks s"
    if "editingTask s = Some e \<and> id_task e = i" for e
    using that by (simp add: updateTask_def t)
  ultimately show ?thesis by blast
qed

text \<open>
  Such a state arises in use: the form stays open on a task while that task is deleted
  from the list below it.
\<close>

lemma stale_edit_reachable:
  "run [SetFormData (emptyForm\<lparr>title := ''Buy milk''\<rparr>), AddTask 5,
        SetFormData (emptyForm\<lparr>title := ''Buy eggs''\<rparr>), AddTask 6,
        StartEdit (newTask 6 (emptyForm\<lparr>title := ''Buy eggs''\<rparr>)),
        DeleteTask ''6'',
        SetFormData (emptyForm\<lparr>title := ''Buy bread''\<rparr>)] initialApp
   = Inr \<lparr>tasks = [newTask 5 (emptyForm\<lparr>title := ''Buy milk''\<rparr>)],
          formData = emptyForm\<lparr>title := ''Buy bread''\<rparr>,
          editingTask = Some (newTask 6 (emptyForm\<lparr>title := ''Buy eggs''\<rparr>)),
          showAddForm = True\<rparr>"
  by (simp add: addTask_def deleteTask_def startEdit_def initialApp_def emptyForm_def
      resetForm_def newTask_def trim_def isWhiteSpace_def toString_def digits.simps
      digitChar_def)

theorem absent_id_no_effect_witness:
  "''6'' \<notin> id_task ` set (tasks
       \<lparr>tasks = [newTask 5 (emptyForm\<lparr>title := ''Buy milk''\<rparr>)],
        formData = emptyForm\<lparr>title := ''Buy bread''\<rparr>,
        editingTask = Some (newTask 6 (emptyForm\<lparr>title := ''Buy eggs''\<rparr>)),
        showAddForm = True\<rparr>)
   \<and> id_task (newTask 6 (emptyForm\<lparr>title := ''Buy eggs''\<rparr>)) = ''6''
   \<and> toggleTask 9 ''6''
       \<lparr>tasks = [newTask 5 (emptyForm\<lparr>title := ''Buy milk''\<rparr>)],
        formData = emptyForm\<lparr>title := ''Buy bread''\<rparr>,
        editingTask = Some (newTask 6 (emptyForm\<lparr>title := ''Buy eggs''\<rparr>)),
        showAddForm = True\<rparr>
      = Inr \<lparr>tasks = [newTask 5 (emptyForm\<lparr>title := ''Buy milk''\<rparr>)],
        formData = emptyForm\<lparr>title := ''Buy bread''\<rparr>,
        editingTask = Some (newTask 6 (emptyForm\<lparr>title := ''Buy eggs''\<rparr>)),
        showAddForm = True\<rparr>
   \<and> (\<exists>s'. updateTask
       \<lparr>tasks = [newTask 5 (emptyForm\<lparr>title := ''Buy milk''\<rparr>)],
        formData = emptyForm\<lparr>title := ''Buy bread''\<rparr>,
        editingTask = Some (newTask 6 (emptyForm\<lparr>title := ''Buy eggs''\<rparr>)),
        showAddForm = True\<rparr> = Inr s'
        \<and> tasks s' = [newTask 5 (emptyForm\<lparr>title := ''Buy milk''\<rparr>)])
   \<and> ''6'' \<notin> id_task ` set (tasks
       (initialApp\<lparr>tasks := [newTask 5 (emptyForm\<lparr>title := ''Buy milk''\<rparr>)]\<rparr>))
   \<and> toggleTask 9 ''6''
       (initialApp\<lparr>tasks := [newTask 5 (emptyForm\<lparr>title := ''Buy milk''\<rparr>)]\<rparr>)
      = Inr (initialApp\<lparr>tasks := [newTask 5 (emptyForm\<lparr>title := ''Buy milk''\<rparr>)]\<rparr>)"
proof -
  let ?s = "\<lparr>tasks = [newTask 5 (emptyForm\<lparr>title := ''Buy milk''\<rparr>)],
        formData = emptyForm\<lparr>title := ''Buy bread''\<rparr>,
        editingTask = Some (newTask 6 (emptyForm\<lparr>title := ''Buy eggs''\<rparr>)),
        showAddForm = True\<rparr>"
  let ?n = "initialApp\<lparr>tasks := [newTask 5 (emptyForm\<lparr>title := ''Buy milk''\<rparr>)]\<rparr>"
  have a: "''6'' \<notin> id_task ` set (tasks ?s)"
    by (simp add: newTask_def toString_def digits.simps digitChar_def)
  have a': "''6'' \<notin> id_task ` set (tasks ?n)"
    by (simp add: newTask_def toString_def digits.simps digitChar_def)
  have b: "editingTask ?s = Some (newTask 6 (emptyForm\<lparr>title := ''Buy eggs''\<rparr>))"
    by simp
  have c: "id_task (newTask 6 (emptyForm\<lparr>title := ''Buy eggs''\<rparr>)) = ''6''"
    by (simp add: newTask_def toString_def digits.simps digitChar_def)
  note t = absent_id_no_effect [OF a, of 9]
  from t have 1: "toggleTask 9 ''6'' ?s = Inr ?s" by blast
  from t b c have 2: "\<exists>s'. updateTask ?s = Inr s' \<and> tasks s' = tasks ?s" by blast
  from absent_id_no_effect [OF a', of 9] have 3: "toggleTask 9 ''6'' ?n = Inr ?n" by blast
  from 2 have u: "\<exists>s'. updateTask ?s = Inr s'
        \<and> tasks s' = [newTask 5 (emptyForm\<lparr>title := ''Buy milk''\<rparr>)]" by simp
  from a a' c 1 u 3 show ?thesis by blast
qed

subsection \<open>What an update changes\<close>

text \<open>
  C9, as stated, fails: \<^verbatim>\<open>updateTask\<close> picks its target by identifier, and two tasks
  created at one reading of the clock share theirs. Editing the first of two such tasks
  rewrites the second as well: the titles B, A of the store become C, C.
\<close>

theorem update_shared_id_counterexample:
  "map title (tasks (projr
      (run [SetFormData (emptyForm\<lparr>title := ''A''\<rparr>), AddTask 1000,
            SetFormData (emptyForm\<lparr>title := ''B''\<rparr>), AddTask 1000] initialApp)))
     = [''B'', ''A'']
   \<and> map id_task (tasks (projr
      (run [SetFormData (emptyForm\<lparr>title := ''A''\<rparr>), AddTask 1000,
            SetFormData (emptyForm\<lparr>title := ''B''\<rparr>), AddTask 1000] initialApp)))
     = [''1000'', ''1000'']
   \<and> tasks (projr
      (run [SetFormData (emptyForm\<lparr>title := ''A''\<rparr>), AddTask 1000,
            SetFormData (emptyForm\<lparr>title := ''B''\<rparr>), AddTask 1000] initialApp)) ! 0
     = newTask 1000 (emptyForm\<lparr>title := ''B''\<rparr>)
   \<and> run [SetFormData (emptyForm\<lparr>title := ''A''\<rparr>), AddTask 1000,
          SetFormData (emptyForm\<lparr>title := ''B''\<rparr>), AddTask 1000,
          StartEdit (newTask 1000 (emptyForm\<lparr>title := ''B''\<rparr>)),
          SetFormData (emptyForm\<lparr>title := ''C''\<rparr>),
          UpdateTask] initialApp
     = Inr \<lparr>tasks =
            [\<lparr>title = ''C'', description = [], priority = medium,
              category = ''Personal'', dueDate = [], id_task = ''1000'',
              completed = False, createdAt = 1000, completedAt = None\<rparr>,
             \<lparr>title = ''C'', description = [], priority = medium,
              category = ''Personal'', dueDate = [], id_task = ''1000'',
              completed = False, createdAt = 1000, completedAt = None\<rparr>],
          formData = emptyForm, editingTask = None, showAddForm = True\<rparr>
   \<and> tasks (projr
      (run [SetFormData (emptyForm\<lparr>title := ''A''\<rparr>), AddTask 1000,
            SetFormData (emptyForm\<lparr>title := ''B''\<rparr>), AddTask 1000,
            StartEdit (newTask 1000 (emptyForm\<lparr>title := ''B''\<rparr>)),
            SetFormData (emptyForm\<lparr>title := ''C''\<rparr>),
            UpdateTask] initialApp)) ! 1
     \<noteq> tasks (projr
      (run [SetFormData (emptyForm\<lparr>title := ''A''\<rparr>), AddTask 1000,
            SetFormData (emptyForm\<lparr>title := ''B''\<rparr>), AddTask 1000] initialApp)) ! 1"
  by (simp add: addTask_def updateTask_def startEdit_def editTask_def initialApp_def
      emptyForm_def resetForm_def newTask_def trim_def isWhiteSpace_def toString_def
      digits.simps digitChar_def)

text \<open>
  C9, amended. When the form is editing a task whose identifier is in the store and the
  title of the form is not blank, \<^verbatim>\<open>updateTask\<close> succeeds and keeps the length and order
  of the collection; every task with that identifier keeps its \<open>id\<close>, \<open>createdAt\<close>,
  \<open>completed\<close> and \<open>completedAt\<close> and takes title (trimmed), description (trimmed),
  priority, category and due date from the form; every task with another identifier is
  unchanged. When the identifiers in the store are pairwise distinct, the tasks that
  are unchanged are all the tasks other than the target.
\<close>

theorem update_frame:
  assumes "editingTask s = Some e"
    and "id_task e \<in> id_task ` set (tasks s)"
    and "trim (title (formData s)) \<noteq> []"
  shows "\<exists>s'. updateTask s = Inr s'
     \<and> length (tasks s') = length (tasks s)
     \<and> (\<forall>k < length (tasks s).
          (id_task (tasks s ! k) = id_task e \<longrightarrow>
             id_task (tasks s' ! k) = id_task (tasks s ! k)
             \<and> createdAt (tasks s' ! k) = createdAt (tasks s ! k)
             \<and> completed (tasks s' ! k) = completed (tasks s ! k)
             \<and> completedAt (tasks s' ! k) = completedAt (tasks s ! k)
             \<and> title (tasks s' ! k) = trim (title (formData s))
             \<and> description (tasks s' ! k) = trim (description (formData s))
             \<and> priority (tasks s' ! k) = priority (formData s)
             \<and> category (tasks s' ! k) = category (formData s)
             \<and> dueDate (tasks s' ! k) = dueDate (formData s))
          \<and> (id_task (tasks s ! k) \<noteq> id_task e \<longrightarrow> tasks s' ! k = tasks s ! k))
     \<and> (distinct (map id_task (tasks s)) \<longrightarrow>
          (\<forall>j < length (tasks s). \<forall>k < length (tasks s).
             id_task (tasks s ! j) = id_task e \<longrightarrow> k \<noteq> j \<longrightarrow>
               tasks s' ! k = tasks s ! k))"
proof -
  obtain s' where s': "updateTask s = Inr s'"
    using step_returns [of UpdateTask s] by auto
  from updateTask_tasks [OF s'] assms(1,3)
  have "tasks s' = map (\<lambda>task. if id_task task = id_task e
                            then editTask (formData s) task else task) (tasks s)"
    by simp
  then have m: "length (tasks s') = length (tasks s)
     \<and> (\<forall>k < length (tasks s).
          (id_task (tasks s ! k) = id_task e \<longrightarrow>
             tasks s' ! k = editTask (formData s) (tasks s ! k))
          \<and> (id_task (tasks s ! k) \<noteq> id_task e \<longrightarrow> tasks s' ! k = tasks s ! k))"
    by simp
  have d: "tasks s' ! k = tasks s ! k"
    if "distinct (map id_task (tasks s))" and "j < length (tasks s)"
      and "k < length (tasks s)" and "id_task (tasks s ! j) = id_task e" and "k \<noteq> j"
    for j k
  proof -
    have "map id_task (tasks s) ! k \<noteq> map id_task (tasks s) ! j"
      using that(1,2,3,5) by (simp add: nth_eq_iff_index_eq del: nth_map)
    with that(2,3,4) have "id_task (tasks s ! k) \<noteq> id_task e" by simp
    with m that(3) show ?thesis by blast
  qed
  from m have "length (tasks s') = length (tasks s)
     \<and> (\<forall>k < length (tasks s).
          (id_task (tasks s ! k) = id_task e \<longrightarrow>
             id_task (tasks s' ! k) = id_task (tasks s ! k)
             \<and> createdAt (tasks s' ! k) = createdAt (tasks s ! k)
             \<and> completed (tasks s' ! k) = completed (tasks s ! k)
             \<and> completedAt (tasks s' ! k) = completedAt (tasks s ! k)
             \<and> title (tasks s' ! k) = trim (title (formData s))
             \<and> description (tasks s' ! k) = trim (description (formData s))
             \<and> priority (tasks s' ! k) = priority (formData s)
             \<and> category (tasks s' ! k) = category (formData s)
             \<and> dueDate (tasks s' ! k) = dueDate (formData s))
          \<and> (id_task (tasks s ! k) \<noteq> id_task e \<longrightarrow> tasks s' ! k = tasks s ! k))"
    by (auto simp: editTask_def)
  with s' d show ?thesis by blast
qed

theorem update_frame_witness:
  "updateTask
     \<lparr>tasks = [newTask 5 (emptyForm\<lparr>title := ''Buy milk''\<rparr>),
               (newTask 6 (emptyForm\<lparr>title := ''Buy eggs''\<rparr>))
                 \<lparr>completed := True, completedAt := Some 8\<rparr>],
      formData = \<lparr>title = '' Buy bread '', description = ''  two loaves'', priority = high,
                  category = ''Shopping'', dueDate = ''2024-06-10''\<rparr>,
      editingTask = Some (newTask 6 (emptyForm\<lparr>title := ''Buy eggs''\<rparr>)),
      showAddForm = True\<rparr>
   = Inr \<lparr>tasks = [newTask 5 (emptyForm\<lparr>title := ''Buy milk''\<rparr>),
               \<lparr>title = ''Buy bread'', description = ''two loaves'', priority = high,
                category = ''Shopping'', dueDate = ''2024-06-10'', id_task = ''6'',
                completed = True, createdAt = 6, completedAt = Some 8\<rparr>],
      formData = emptyForm, editingTask = None, showAddForm = True\<rparr>
   \<and> (\<exists>s'. updateTask
     \<lparr>tasks = [newTask 5 (emptyForm\<lparr>title := ''Buy milk''\<rparr>),
               (newTask 6 (emptyForm\<lparr>title := ''Buy eggs''\<rparr>))
                 \<lparr>completed := True, completedAt := Some 8\<rparr>],
      formData = \<lparr>title = '' Buy bread '', description = ''  two loaves'', priority = high,
                  category = ''Shopping'', dueDate = ''2024-06-10''\<rparr>,
      editingTask = Some (newTask 6 (emptyForm\<lparr>title := ''Buy eggs''\<rparr>)),
      showAddForm = True\<rparr> = Inr s'
      \<and> tasks s' ! 0 = newTask 5 (emptyForm\<lparr>title := ''Buy milk''\<rparr>)
      \<and> completedAt (tasks s' ! 1) = Some 8 \<and> createdAt (tasks s' ! 1) = 6
      \<and> title (tasks s' ! 1) = ''Buy bread'')
   \<and> distinct (map id_task
        [newTask 5 (emptyForm\<lparr>title := ''Buy milk''\<rparr>),
         (newTask 6 (emptyForm\<lparr>title := ''Buy eggs''\<rparr>))
           \<lparr>completed := True, completedAt := Some 8\<rparr>])"
proof -
  let ?s = "\<lparr>tasks = [newTask 5 (emptyForm\<lparr>title := ''Buy milk''\<rparr>),
               (newTask 6 (emptyForm\<lparr>title := ''Buy eggs''\<rparr>))
                 \<lparr>completed := True, completedAt := Some 8\<rparr>],
      formData = \<lparr>title = '' Buy bread '', description = ''  two loaves'', priority = high,
                  category = ''Shopping'', dueDate = ''2024-06-10''\<rparr>,
      editingTask = Some (newTask 6 (emptyForm\<lparr>title := ''Buy eggs''\<rparr>)),
      showAddForm = True\<rparr>"
  have a: "editingTask ?s = Some (newTask 6 (emptyForm\<lparr>title := ''Buy eggs''\<rparr>))"
    by simp
  have b: "id_task (newTask 6 (emptyForm\<lparr>title := ''Buy eggs''\<rparr>)) \<in> id_task ` set (tasks ?s)"
    by (simp add: newTask_def)
  have c: "trim (title (formData ?s)) \<noteq> []"
    by (simp add: trim_def isWhiteSpace_def)
  have d: "updateTask ?s
   = Inr \<lparr>tasks = [newTask 5 (emptyForm\<lparr>title := ''Buy milk''\<rparr>),
               \<lparr>title = ''Buy bread'', description = ''two loaves'', priority = high,
                category = ''Shopping'', dueDate = ''2024-06-10'', id_task = ''6'',
                completed = True, createdAt = 6, completedAt = Some 8\<rparr>],
      formData = emptyForm, editingTask = None, showAddForm = True\<rparr>"
    by (simp add: updateTask_def editTask_def resetForm_def newTask_def trim_def
        isWhiteSpace_def toString_def digits.simps digitChar_def emptyForm_def)
  have e: "distinct (map id_task
        [newTask 5 (emptyForm\<lparr>title := ''Buy milk''\<rparr>),
         (newTask 6 (emptyForm\<lparr>title := ''Buy eggs''\<rparr>))
           \<lparr>completed := True, completedAt := Some 8\<rparr>])"
    by (simp add: newTask_def toString_def digits.simps digitChar_def)
  from update_frame [OF a b c] d e show ?thesis by simp
qed

subsection \<open>The stored description\<close>

text \<open>
  C10. A task made by \<^verbatim>\<open>addTask\<close>, and a task rewritten by \<^verbatim>\<open>updateTask\<close>, stores the
  description of the form with its leading and trailing white space removed: the stored
  text is the form's text without a prefix and a suffix of white space, it neither
  starts nor ends with white space, and it is empty when the form's text is white
  space only.
\<close>

theorem description_stored_trimmed:
  assumes "trim (title (formData s)) \<noteq> []"
  shows "(\<exists>s'. addTask now s = Inr s' \<and> tasks s' \<noteq> []
            \<and> description (hd (tasks s')) = trim (description (formData s)))
     \<and> (\<forall>e. editingTask s = Some e \<longrightarrow>
          (\<exists>s'. updateTask s = Inr s' \<and> length (tasks s') = length (tasks s)
             \<and> (\<forall>k < length (tasks s). id_task (tasks s ! k) = id_task e \<longrightarrow>
                   description (tasks s' ! k) = trim (description (formData s)))))
     \<and> (\<exists>p q. description (formData s) = p @ trim (description (formData s)) @ q
            \<and> list_all isWhiteSpace p \<and> list_all isWhiteSpace q)
     \<and> (trim (description (formData s)) \<noteq> [] \<longrightarrow>
            \<not> isWhiteSpace (hd (trim (description (formData s))))
            \<and> \<not> isWhiteSpace (last (trim (description (formData s)))))
     \<and> ((\<forall>c \<in> set (description (formData s)). isWhiteSpace c) \<longrightarrow>
            trim (description (formData s)) = [])"
proof -
  have 1: "\<exists>s'. addTask now s = Inr s' \<and> tasks s' \<noteq> []
            \<and> description (hd (tasks s')) = trim (description (formData s))"
    using assms by (simp add: addTask_def newTask_def)
  have 2: "\<exists>s'. updateTask s = Inr s' \<and> length (tasks s') = length (tasks s)
             \<and> (\<forall>k < length (tasks s). id_task (tasks s ! k) = id_task e \<longrightarrow>
                   description (tasks s' ! k) = trim (description (formData s)))"
    if "editingTask s = Some e" for e
    using assms that by (simp add: updateTask_def editTask_def)
  from 1 2 trim_decomp [of "description (formData s)"] trim_ends [of "description (formData s)"]
    trim_empty_iff [of "description (formData s)"]
  show ?thesis by blast
qed

theorem description_stored_trimmed_witness:
  "trim (title (formData
      \<lparr>tasks = [newTask 5 (emptyForm\<lparr>title := ''Buy milk''\<rparr>)],
       formData = emptyForm\<lparr>title := ''Buy bread'', description := ''  two loaves ''\<rparr>,
       editingTask = Some (newTask 5 (emptyForm\<lparr>title := ''Buy milk''\<rparr>)),
       showAddForm = True\<rparr>)) \<noteq> []
   \<and> trim ''  two loaves '' = ''two loaves''
   \<and> (\<exists>s'. addTask 7
      \<lparr>tasks = [newTask 5 (emptyForm\<lparr>title := ''Buy milk''\<rparr>)],
       formData = emptyForm\<lparr>title := ''Buy bread'', description := ''  two loaves ''\<rparr>,
       editingTask = Some (newTask 5 (emptyForm\<lparr>title := ''Buy milk''\<rparr>)),
       showAddForm = True\<rparr> = Inr s' \<and> description (hd (tasks s')) = ''two loaves'')
   \<and> (\<exists>s'. updateTask
      \<lparr>tasks = [newTask 5 (emptyForm\<lparr>title := ''Buy milk''\<rparr>)],
       formData = emptyForm\<lparr>title := ''Buy bread'', description := ''  two loaves ''\<rparr>,
       editingTask = Some (newTask 5 (emptyForm\<lparr>title := ''Buy milk''\<rparr>)),
       showAddForm = True\<rparr> = Inr s' \<and> description (tasks s' ! 0) = ''two loaves'')"
proof -
  let ?s = "\<lparr>tasks = [newTask 5 (emptyForm\<lparr>title := ''Buy milk''\<rparr>)],
       formData = emptyForm\<lparr>title := ''Buy bread'', description := ''  two loaves ''\<rparr>,
       editingTask = Some (newTask 5 (emptyForm\<lparr>title := ''Buy milk''\<rparr>)),
       showAddForm = True\<rparr>"
  have a: "trim (title (formData ?s)) \<noteq> []"
    by (simp add: trim_def isWhiteSpace_def)
  have b: "trim ''  two loaves '' = ''two loaves''"
    by (simp add: trim_def isWhiteSpace_def)
  note t = description_stored_trimmed [OF a, of 7]
  from t have "\<exists>s'. addTask 7 ?s = Inr s' \<and> description (hd (tasks s')) = ''two loaves''"
    using b by auto
  moreover from t have "\<exists>s'. updateTask ?s = Inr s' \<and> description (tasks s' ! 0) = ''two loaves''"
    using b by (auto simp: newTask_def)
  ultimately show ?thesis using a b by blast
qed

subsection \<open>The stable sort\<close>

lemma mset_insertBy: "mset (insertBy cmp a bs) = add_mset a (mset bs)"
  by (induction bs) simp_all

lemma mset_sortWith: "mset (sortWith cmp xs) = mset xs"
  by (induction xs) (simp_all add: mset_insertBy)

lemma set_insertBy: "set (insertBy cmp a bs) = insert a (set bs)"
  using mset_insertBy [of cmp a bs] by (metis set_mset_add_mset_insert set_mset_mset)

lemma set_sortWith: "set (sortWith cmp xs) = set xs"
  using mset_sortWith [of cmp xs] by (metis set_mset_mset)

text \<open>
  On a set of elements where the comparator is total and transitive, insertion keeps a
  list ordered.
\<close>

lemma sorted_insertBy:
  assumes tot: "\<And>x y. x \<in> A \<Longrightarrow> y \<in> A \<Longrightarrow> \<not> notAfter cmp x y \<Longrightarrow> notAfter cmp y x"
    and tr: "\<And>x y z. x \<in> A \<Longrightarrow> y \<in> A \<Longrightarrow> z \<in> A \<Longrightarrow>
               notAfter cmp x y \<Longrightarrow> notAfter cmp y z \<Longrightarrow> notAfter cmp x z"
    and "a \<in> A" and "set bs \<subseteq> A" and "sorted_wrt (notAfter cmp) bs"
  shows "sorted_wrt (notAfter cmp) (insertBy cmp a bs)"
  using assms(3-)
proof (induction bs)
  case Nil
  then show ?case by simp
next
  case (Cons b bs)
  show ?case
  proof (cases "notAfter cmp a b")
    case True
    have "notAfter cmp a c" if "c \<in> set bs" for c
      using tr [of a b c] True that Cons.prems by auto
    with True Cons.prems show ?thesis by auto
  next
    case False
    then have "notAfter cmp b a" using tot [of a b] Cons.prems by auto
    moreover have "sorted_wrt (notAfter cmp) (insertBy cmp a bs)"
      using Cons by auto
    ultimately show ?thesis using False Cons.prems by (auto simp: set_insertBy)
  qed
qed

lemma sorted_sortWith:
  assumes tot: "\<And>x y. x \<in> A \<Longrightarrow> y \<in> A \<Longrightarrow> \<not> notAfter cmp x y \<Longrightarrow> notAfter cmp y x"
    and tr: "\<And>x y z. x \<in> A \<Longrightarrow> y \<in> A \<Longrightarrow> z \<in> A \<Longrightarrow>
               notAfter cmp x y \<Longrightarrow> notAfter cmp y z \<Longrightarrow> notAfter cmp x z"
    and "set xs \<subseteq> A"
  shows "sorted_wrt (notAfter cmp) (sortWith cmp xs)"
  using assms(3)
proof (induction xs)
  case Nil
  show ?case by simp
next
  case (Cons a xs)
  then have "sorted_wrt (notAfter cmp) (sortWith cmp xs)" by simp
  with Cons.prems show ?case
    by (simp add: sorted_insertBy [where A = A, OF tot tr] set_sortWith)
qed

text \<open>
  Stability: elements that the comparator does not separate keep their order.
\<close>

lemma filter_insertBy:
  assumes "\<And>b. b \<in> set bs \<Longrightarrow> P a \<Longrightarrow> P b \<Longrightarrow> notAfter cmp a b"
  shows "filter P (insertBy cmp a bs) = (if P a then a # filter P bs else filter P bs)"
  using assms by (induction bs) auto

lemma filter_sortWith:
  assumes "\<And>a b. a \<in> set xs \<Longrightarrow> b \<in> set xs \<Longrightarrow> P a \<Longrightarrow> P b \<Longrightarrow> notAfter cmp a b"
  shows "filter P (sortWith cmp xs) = filter P xs"
  using assms
proof (induction xs)
  case Nil
  show ?case by simp
next
  case (Cons a xs)
  have "filter P (insertBy cmp a (sortWith cmp xs))
        = (if P a then a # filter P (sortWith cmp xs) else filter P (sortWith cmp xs))"
    by (rule filter_insertBy) (use Cons.prems in \<open>auto simp: set_sortWith\<close>)
  moreover have "filter P (sortWith cmp xs) = filter P xs"
    by (rule Cons.IH) (use Cons.prems in auto)
  ultimately show ?case by simp
qed

subsection \<open>Sorting by priority\<close>

lemma notAfter_priority:
  "notAfter (compareTasks lc SortPriority) a b
     \<longleftrightarrow> priorityOrder (priority b) \<le> priorityOrder (priority a)"
  by (simp add: notAfter_def compareTasks_def)

text \<open>
  C7. Sorting by priority returns the same tasks, in descending order of rank
  (high 3, medium 2, low 1), and the tasks of one priority stay in the order they had in
  the input. Tasks with priorities low, high, medium, high come out as the two high
  tasks in their input order, then the medium one, then the low one.
\<close>

theorem sort_by_priority:
  "mset (sortTasks lc SortPriority ts) = mset ts
   \<and> sorted_wrt (\<lambda>a b. priorityOrder (priority b) \<le> priorityOrder (priority a))
        (sortTasks lc SortPriority ts)
   \<and> (\<forall>p. filter (\<lambda>t. priority t = p) (sortTasks lc SortPriority ts)
          = filter (\<lambda>t. priority t = p) ts)
   \<and> priorityOrder high = 3 \<and> priorityOrder medium = 2 \<and> priorityOrder low = 1
   \<and> sortTasks lc SortPriority
        [a\<lparr>priority := low\<rparr>, b\<lparr>priority := high\<rparr>, c\<lparr>priority := medium\<rparr>,
         d\<lparr>priority := high\<rparr>]
      = [b\<lparr>priority := high\<rparr>, d\<lparr>priority := high\<rparr>, c\<lparr>priority := medium\<rparr>,
         a\<lparr>priority := low\<rparr>]"
proof -
  let ?cmp = "compareTasks lc SortPriority"
  have 1: "mset (sortTasks lc SortPriority ts) = mset ts"
    by (simp add: sortTasks_def mset_sortWith)
  have "sorted_wrt (notAfter ?cmp) (sortWith ?cmp ts)"
    by (rule sorted_sortWith [where A = UNIV]) (auto simp: notAfter_priority)
  then have 2: "sorted_wrt (\<lambda>a b. priorityOrder (priority b) \<le> priorityOrder (priority a))
        (sortTasks lc SortPriority ts)"
    by (simp add: sortTasks_def notAfter_priority [abs_def])
  have 3: "filter (\<lambda>t. priority t = p) (sortTasks lc SortPriority ts)
          = filter (\<lambda>t. priority t = p) ts" for p
    unfolding sortTasks_def
    by (rule filter_sortWith) (simp add: notAfter_priority)
  have 4: "priorityOrder high = 3 \<and> priorityOrder medium = 2 \<and> priorityOrder low = 1"
    by (simp add: priorityOrder_def)
  have 5: "sortTasks lc SortPriority
        [a\<lparr>priority := low\<rparr>, b\<lparr>priority := high\<rparr>, c\<lparr>priority := medium\<rparr>,
         d\<lparr>priority := high\<rparr>]
      = [b\<lparr>priority := high\<rparr>, d\<lparr>priority := high\<rparr>, c\<lparr>priority := medium\<rparr>,
         a\<lparr>priority := low\<rparr>]"
    by (simp add: sortTasks_def notAfter_priority priorityOrder_def)
  from 1 2 3 4 5 show ?thesis by blast
qed

subsection \<open>Sorting by due date\<close>

lemma notAfter_dueDate:
  assumes "dueDate a \<noteq> [] \<longrightarrow> parseDate (dueDate a) \<noteq> None"
    and "dueDate b \<noteq> [] \<longrightarrow> parseDate (dueDate b) \<noteq> None"
  shows "notAfter (compareTasks lc SortDueDate) a b
     \<longleftrightarrow> dueDate b = []
         \<or> (dueDate a \<noteq> [] \<and> the (parseDate (dueDate a)) \<le> the (parseDate (dueDate b)))"
  using assms by (auto simp: notAfter_def compareTasks_def timeDiff_def)

lemma sorted_split:
  assumes "sorted_wrt R xs"
    and "\<And>a b. a \<in> set xs \<Longrightarrow> b \<in> set xs \<Longrightarrow> \<not> P a \<Longrightarrow> P b \<Longrightarrow> \<not> R a b"
  shows "xs = filter P xs @ filter (\<lambda>x. \<not> P x) xs"
  using assms
proof (induction xs)
  case Nil
  show ?case by simp
next
  case (Cons x xs)
  have ih: "xs = filter P xs @ filter (\<lambda>x. \<not> P x) xs"
    using Cons by auto
  show ?case
  proof (cases "P x")
    case True
    with ih show ?thesis by simp
  next
    case False
    have "\<not> P y" if "y \<in> set xs" for y
      using Cons.prems(1) Cons.prems(2) [of x y] False that by auto
    then have "filter P xs = []" "filter (\<lambda>x. \<not> P x) xs = xs"
      by (simp_all add: filter_empty_conv filter_id_conv)
    with False show ?thesis by simp
  qed
qed

text \<open>
  C8. On a list in which every due date that is present is a valid date, sorting by
  due date returns the same tasks; the tasks with a due date come first, ascending by
  date, and the tasks without a due date follow them in the order they had in the input.
\<close>

theorem sort_by_dueDate:
  assumes "\<forall>t \<in> set ts. dueDate t \<noteq> [] \<longrightarrow> parseDate (dueDate t) \<noteq> None"
  shows "mset (sortTasks lc SortDueDate ts) = mset ts
   \<and> sortTasks lc SortDueDate ts
       = filter (\<lambda>t. dueDate t \<noteq> []) (sortTasks lc SortDueDate ts)
         @ filter (\<lambda>t. dueDate t = []) ts
   \<and> sorted_wrt (\<lambda>a b. \<exists>x y. parseDate (dueDate a) = Some x
                            \<and> parseDate (dueDate b) = Some y \<and> x \<le> y)
        (filter (\<lambda>t. dueDate t \<noteq> []) (sortTasks lc SortDueDate ts))"
proof -
  let ?cmp = "compareTasks lc SortDueDate"
  let ?r = "sortTasks lc SortDueDate ts"
  let ?A = "{t. dueDate t \<noteq> [] \<longrightarrow> parseDate (dueDate t) \<noteq> None}"
  have A: "set ts \<subseteq> ?A" using assms by auto
  have r: "set ?r = set ts" by (simp add: sortTasks_def set_sortWith)
  have 1: "mset ?r = mset ts"
    by (simp add: sortTasks_def mset_sortWith)
  have s: "sorted_wrt (notAfter ?cmp) ?r"
    unfolding sortTasks_def
  proof (rule sorted_sortWith [where A = ?A])
    show "set ts \<subseteq> ?A" by (rule A)
  next
    fix x y assume "x \<in> ?A" "y \<in> ?A" "\<not> notAfter ?cmp x y"
    then show "notAfter ?cmp y x"
      by (simp add: notAfter_dueDate) linarith
  next
    fix x y z assume "x \<in> ?A" "y \<in> ?A" "z \<in> ?A" "notAfter ?cmp x y" "notAfter ?cmp y z"
    then show "notAfter ?cmp x z"
      by (simp add: notAfter_dueDate) linarith
  qed
  have u: "filter (\<lambda>t. dueDate t = []) ?r = filter (\<lambda>t. dueDate t = []) ts"
    unfolding sortTasks_def
    by (rule filter_sortWith) (simp add: notAfter_def compareTasks_def)
  have "?r = filter (\<lambda>t. dueDate t \<noteq> []) ?r @ filter (\<lambda>t. \<not> dueDate t \<noteq> []) ?r"
  proof (rule sorted_split [OF s])
    fix a b assume "a \<in> set ?r" "b \<in> set ?r" "\<not> dueDate a \<noteq> []" "dueDate b \<noteq> []"
    then show "\<not> notAfter ?cmp a b"
      by (simp add: notAfter_def compareTasks_def)
  qed
  with u have 2: "?r = filter (\<lambda>t. dueDate t \<noteq> []) ?r @ filter (\<lambda>t. dueDate t = []) ts"
    by simp
  have "sorted_wrt (notAfter ?cmp) (filter (\<lambda>t. dueDate t \<noteq> []) ?r)"
    using s by (rule sorted_wrt_filter)
  then have 3: "sorted_wrt (\<lambda>a b. \<exists>x y. parseDate (dueDate a) = Some x
                            \<and> parseDate (dueDate b) = Some y \<and> x \<le> y)
        (filter (\<lambda>t. dueDate t \<noteq> []) ?r)"
  proof (rule sorted_wrt_mono_rel [rotated])
    fix a b
    assume a: "a \<in> set (filter (\<lambda>t. dueDate t \<noteq> []) ?r)"
      and b: "b \<in> set (filter (\<lambda>t. dueDate t \<noteq> []) ?r)"
      and le: "notAfter ?cmp a b"
    from a b r A have va: "dueDate a \<noteq> []" "parseDate (dueDate a) \<noteq> None"
      and vb: "dueDate b \<noteq> []" "parseDate (dueDate b) \<noteq> None"
      by auto
    with le show "\<exists>x y. parseDate (dueDate a) = Some x
                            \<and> parseDate (dueDate b) = Some y \<and> x \<le> y"
      by (auto simp: notAfter_dueDate)
  qed
  from 1 2 3 show ?thesis by blast
qed

theorem sort_by_dueDate_witness:
  "list_all (\<lambda>t. dueDate t = [] \<or> parseDate (dueDate t) \<noteq> None)
       [newTask 1 (emptyForm\<lparr>title := ''a'', dueDate := ''2024-06-12''\<rparr>),
        newTask 2 (emptyForm\<lparr>title := ''b''\<rparr>),
        newTask 3 (emptyForm\<lparr>title := ''c'', dueDate := ''2024-06-10''\<rparr>),
        newTask 4 (emptyForm\<lparr>title := ''d''\<rparr>),
        newTask 5 (emptyForm\<lparr>title := ''e'', dueDate := ''2023-12-31''\<rparr>)]
   \<and> sortTasks (\<lambda>x y. 0) SortDueDate
        [newTask 1 (emptyForm\<lparr>title := ''a'', dueDate := ''2024-06-12''\<rparr>),
         newTask 2 (emptyForm\<lparr>title := ''b''\<rparr>),
         newTask 3 (emptyForm\<lparr>title := ''c'', dueDate := ''2024-06-10''\<rparr>),
         newTask 4 (emptyForm\<lparr>title := ''d''\<rparr>),
         newTask 5 (emptyForm\<lparr>title := ''e'', dueDate := ''2023-12-31''\<rparr>)]
      = [newTask 5 (emptyForm\<lparr>title := ''e'', dueDate := ''2023-12-31''\<rparr>),
         newTask 3 (emptyForm\<lparr>title := ''c'', dueDate := ''2024-06-10''\<rparr>),
         newTask 1 (emptyForm\<lparr>title := ''a'', dueDate := ''2024-06-12''\<rparr>),
         newTask 2 (emptyForm\<lparr>title := ''b''\<rparr>),
         newTask 4 (emptyForm\<lparr>title := ''d''\<rparr>)]
   \<and> mset (sortTasks (\<lambda>x y. 0) SortDueDate
        [newTask 1 (emptyForm\<lparr>title := ''a'', dueDate := ''2024-06-12''\<rparr>),
         newTask 2 (emptyForm\<lparr>title := ''b''\<rparr>),
         newTask 3 (emptyForm\<lparr>title := ''c'', dueDate := ''2024-06-10''\<rparr>),
         newTask 4 (emptyForm\<lparr>title := ''d''\<rparr>),
         newTask 5 (emptyForm\<lparr>title := ''e'', dueDate := ''2023-12-31''\<rparr>)])
      = mset [newTask 1 (emptyForm\<lparr>title := ''a'', dueDate := ''2024-06-12''\<rparr>),
         newTask 2 (emptyForm\<lparr>title := ''b''\<rparr>),
         newTask 3 (emptyForm\<lparr>title := ''c'', dueDate := ''2024-06-10''\<rparr>),
         newTask 4 (emptyForm\<lparr>title := ''d''\<rparr>),
         newTask 5 (emptyForm\<lparr>title := ''e'', dueDate := ''2023-12-31''\<rparr>)]"
proof -
  let ?ts = "[newTask 1 (emptyForm\<lparr>title := ''a'', dueDate := ''2024-06-12''\<rparr>),
         newTask 2 (emptyForm\<lparr>title := ''b''\<rparr>),
         newTask 3 (emptyForm\<lparr>title := ''c'', dueDate := ''2024-06-10''\<rparr>),
         newTask 4 (emptyForm\<lparr>title := ''d''\<rparr>),
         newTask 5 (emptyForm\<lparr>title := ''e'', dueDate := ''2023-12-31''\<rparr>)]"
  have h: "\<forall>t \<in> set ?ts. dueDate t \<noteq> [] \<longrightarrow> parseDate (dueDate t) \<noteq> None"
    by code_simp
  have e: "sortTasks (\<lambda>x y. 0) SortDueDate ?ts
      = [newTask 5 (emptyForm\<lparr>title := ''e'', dueDate := ''2023-12-31''\<rparr>),
         newTask 3 (emptyForm\<lparr>title := ''c'', dueDate := ''2024-06-10''\<rparr>),
         newTask 1 (emptyForm\<lparr>title := ''a'', dueDate := ''2024-06-12''\<rparr>),
         newTask 2 (emptyForm\<lparr>title := ''b''\<rparr>),
         newTask 4 (emptyForm\<lparr>title := ''d''\<rparr>)]"
    by code_simp
  have l: "list_all (\<lambda>t. dueDate t = [] \<or> parseDate (dueDate t) \<noteq> None) ?ts"
    by code_simp
  from sort_by_dueDate [OF h, of "\<lambda>x y. 0"] l e show ?thesis by blast
qed

subsection \<open>The overdue class\<close>

text \<open>A due date is parsed to midnight UTC of the day it names.\<close>

lemma parseDate_midnight: "parseDate due = Some t \<Longrightarrow> t mod msPerDay = 0"
  by (auto simp: parseDate_def Let_def split: if_splits)

text \<open>
  Where local time never runs backwards, \<^verbatim>\<open>isOverdue\<close> compares local days: the local
  day of the parsed due date is before the local day of the clock.
\<close>

lemma isOverdue_localDay:
  assumes "\<And>a b. a \<le> b \<Longrightarrow> a + tza a \<le> b + tza b"
  shows "isOverdue tza now due
     \<longleftrightarrow> due \<noteq> [] \<and> (\<exists>t. parseDate due = Some t \<and> localDay tza t < localDay tza now)"
proof (cases "due = [] \<or> parseDate due = None")
  case True
  then show ?thesis by (auto simp: isOverdue_def dateBefore_def)
next
  case False
  then obtain t where t: "due \<noteq> []" "parseDate due = Some t" by auto
  have "t < now \<and> localDay tza t \<noteq> localDay tza now \<longleftrightarrow> localDay tza t < localDay tza now"
  proof
    assume a: "t < now \<and> localDay tza t \<noteq> localDay tza now"
    then have "t + tza t \<le> now + tza now" using assms [of t now] by simp
    then have "localDay tza t \<le> localDay tza now"
      unfolding localDay_def msPerDay_def by (intro zdiv_mono1) simp_all
    with a show "localDay tza t < localDay tza now" by simp
  next
    assume b: "localDay tza t < localDay tza now"
    have "t < now"
    proof (rule ccontr)
      assume "\<not> t < now"
      then have "now + tza now \<le> t + tza t" using assms [of now t] by simp
      then have "localDay tza now \<le> localDay tza t"
        unfolding localDay_def msPerDay_def by (intro zdiv_mono1) simp_all
      with b show False by simp
    qed
    with b show "t < now \<and> localDay tza t \<noteq> localDay tza now" by simp
  qed
  with t show ?thesis by (simp add: isOverdue_def dateBefore_def toDateString_def)
qed

text \<open>
  In a time zone at a fixed offset east of Greenwich (from 0 up to, not including, 24
  hours) the local day of the parsed due date is the day that the string names, so
  there \<^verbatim>\<open>isOverdue\<close> holds exactly when that day is before the local day of the clock.
\<close>

lemma isOverdue_east:
  assumes "0 \<le> c" and "c < msPerDay"
  shows "isOverdue (\<lambda>_. c) now due
     \<longleftrightarrow> due \<noteq> [] \<and> (\<exists>t. parseDate due = Some t
                          \<and> t div msPerDay < localDay (\<lambda>_. c) now)"
proof -
  have "localDay (\<lambda>_. c) t = t div msPerDay" if "parseDate due = Some t" for t
  proof -
    from parseDate_midnight [OF that] obtain k where "t = k * msPerDay"
      by (metis mod_eq_0_iff_dvd dvd_def mult.commute)
    with assms show ?thesis
      by (simp add: localDay_def msPerDay_def div_pos_pos_trivial)
  qed
  then show ?thesis
    by (subst isOverdue_localDay) auto
qed

text \<open>A task without a due date, and a completed task, is never classed overdue.\<close>

lemma taskOverdue_absent_or_completed:
  "dueDate t = [] \<or> completed t \<Longrightarrow> \<not> taskOverdue tza now t"
  by (auto simp: taskOverdue_def isOverdue_def)

text \<open>
  With the browser on UTC and the clock at 12:00 of 2024-06-10: a date of the day
  before is overdue, the date of the day is not.
\<close>

lemma isOverdue_example_utc:
  "isOverdue (\<lambda>_. 0) 1718020800000 ''2024-06-09''
   \<and> \<not> isOverdue (\<lambda>_. 0) 1718020800000 ''2024-06-10''"
  by code_simp

text \<open>The task of the two evaluations below is one that \<^verbatim>\<open>addTask\<close> makes.\<close>

lemma due_today_task_created:
  "newTask 1717900000000 (emptyForm\<lparr>title := ''Buy milk'', dueDate := ''2024-06-10''\<rparr>)
   = \<lparr>title = ''Buy milk'', description = [], priority = medium, category = ''Personal'',
         dueDate = ''2024-06-10'', id_task = ''1717900000000'', completed = False,
         createdAt = 1717900000000, completedAt = None\<rparr>"
  by (simp add: newTask_def emptyForm_def trim_def isWhiteSpace_def toString_def
      digits.simps digitChar_def)

text \<open>
  C2 fails west of Greenwich. In a browser five hours behind UTC, at local noon of
  2024-06-10 (17:00 UTC), a task due 2024-06-10 that is not completed is classed as
  overdue: the due date is parsed to midnight UTC, which is 19:00 of 2024-06-09 in
  local time, a different local day from the clock's. Day 19884 is 2024-06-10.
\<close>

theorem isOverdue_due_today_west:
  "isOverdue (\<lambda>_. - 18000000) 1718038800000 ''2024-06-10''
   \<and> taskOverdue (\<lambda>_. - 18000000) 1718038800000
        \<lparr>title = ''Buy milk'', description = [], priority = medium, category = ''Personal'',
         dueDate = ''2024-06-10'', id_task = ''1717900000000'', completed = False,
         createdAt = 1717900000000, completedAt = None\<rparr>
   \<and> parseDate ''2024-06-10'' = Some (19884 * msPerDay)
   \<and> localDay (\<lambda>_. - 18000000) 1718038800000 = 19884
   \<and> localDay (\<lambda>_. - 18000000) (19884 * msPerDay) = 19883"
  by code_simp

subsection \<open>The overdue count\<close>

text \<open>
  The count of the statistics does not look at the day: it counts every task that is
  not completed and whose due date, parsed, is before the clock. It exceeds the number
  of tasks classed overdue by the number of such tasks that fall on the clock's day.
\<close>

lemma stats_overdue_excess:
  "overdue (statsOf now ts)
   = length (filter (taskOverdue tza now) ts)
     + length (filter (\<lambda>t. \<not> completed t \<and> dueDate t \<noteq> []
                           \<and> dateBefore (parseDate (dueDate t)) now
                           \<and> toDateString tza (parseDate (dueDate t))
                               = toDateString tza (Some now)) ts)"
proof -
  have "length (filter (\<lambda>t. \<not> completed t \<and> dueDate t \<noteq> []
                              \<and> dateBefore (parseDate (dueDate t)) now) ts)
   = length (filter (taskOverdue tza now) ts)
     + length (filter (\<lambda>t. \<not> completed t \<and> dueDate t \<noteq> []
                           \<and> dateBefore (parseDate (dueDate t)) now
                           \<and> toDateString tza (parseDate (dueDate t))
                               = toDateString tza (Some now)) ts)"
    by (induction ts) (auto simp: taskOverdue_def isOverdue_def)
  then show ?thesis by (simp add: statsOf_def)
qed

text \<open>
  C1 fails on the code. With the browser on UTC, at 12:00 of 2024-06-10, a store that
  holds one task, not completed and due 2024-06-10, has the overdue count 1, while no
  task in it is classed overdue.
\<close>

theorem stats_overdue_counts_due_today:
  "overdue (statsOf 1718020800000
      [\<lparr>title = ''Buy milk'', description = [], priority = medium, category = ''Personal'',
         dueDate = ''2024-06-10'', id_task = ''1717900000000'', completed = False,
         createdAt = 1717900000000, completedAt = None\<rparr>]) = 1
   \<and> length (filter (taskOverdue (\<lambda>_. 0) 1718020800000)
      [\<lparr>title = ''Buy milk'', description = [], priority = medium, category = ''Personal'',
         dueDate = ''2024-06-10'', id_task = ''1717900000000'', completed = False,
         createdAt = 1717900000000, completedAt = None\<rparr>]) = 0
   \<and> \<not> isOverdue (\<lambda>_. 0) 1718020800000 ''2024-06-10''
   \<and> parseDate ''2024-06-10'' = Some (19884 * msPerDay)
   \<and> localDay (\<lambda>_. 0) 1718020800000 = 19884"
  by code_simp

end
